theory Spec2Isabelle
  imports Main "HOL-Library.Multiset"
begin

section \<open>Python strings\<close>

text \<open>
  A Python \<open>str\<close> is modelled as a \<^typ>\<open>string\<close> whose characters are the code points
  below 256; text with other characters is outside the model. \<open>str.strip()\<close> removes
  leading and trailing whitespace: the code points 9..13, 28..32, 133 and 160.
  \<open>str.lower()\<close> maps \<open>A..Z\<close> to \<open>a..z\<close> and the capital letters 192..222 (but not the
  sign 215) to the letters 32 above them; other characters are left as they are.
\<close>

definition isspace :: "char \<Rightarrow> bool" where
  "isspace c =
     (let n = (of_char c :: nat)
      in (9 \<le> n \<and> n \<le> 13) \<or> (28 \<le> n \<and> n \<le> 32) \<or> n = 133 \<or> n = 160)"

definition strip :: "string \<Rightarrow> string" where
  "strip s = rev (dropWhile isspace (rev (dropWhile isspace s)))"

definition lower_char :: "char \<Rightarrow> char" where
  "lower_char c =
     (let n = (of_char c :: nat)
      in if (65 \<le> n \<and> n \<le> 90) \<or> (192 \<le> n \<and> n \<le> 222 \<and> n \<noteq> 215)
         then char_of (n + 32) else c)"

definition lower :: "string \<Rightarrow> string" where
  "lower s = map lower_char s"

section \<open>Table cells and the CSV files\<close>

text \<open>
  The value of a DataFrame cell, of a dict entry taken from a row, or of an element of the
  flat row sent to the sheet: a string, an integer, a timestamp text
  \<open>YYYY-MM-DD HH:MM:SS\<close> (kept as the instant it denotes, in microseconds), or the
  missing value \<open>nan\<close>.
\<close>

datatype cell = Str string | Num int | Fecha int | NaN

text \<open>Python truth value: the empty string and zero are false; \<open>nan\<close> is a non-zero
  float, hence true.\<close>

fun truthy :: "cell \<Rightarrow> bool" where
  "truthy (Str s) = (s \<noteq> [])"
| "truthy (Num n) = (n \<noteq> 0)"
| "truthy (Fecha t) = True"
| "truthy NaN = True"

text \<open>\<open>to_csv\<close> followed by \<open>read_csv\<close>: the empty string is written as an empty field,
  and an empty field is read back as \<open>nan\<close>. What else \<open>read_csv\<close> does to a field (numbers
  for digit strings, \<open>nan\<close> for texts such as \<open>NA\<close>) is not modelled; the files are taken
  to have the columns \<open>init_files\<close> gives them.\<close>

fun csv_cell :: "cell \<Rightarrow> cell" where
  "csv_cell (Str s) = (if s = [] then NaN else Str s)"
| "csv_cell c = c"

datatype 'r csv_file = Absent | Unreadable | Csv "'r list"

text \<open>\<open>usuarios.csv\<close>: columns \<open>email, nombre, nickname, fecha_registro\<close>.\<close>

record user_row =
  email :: cell
  nombre :: cell
  nickname :: cell
  fecha_registro :: cell

text \<open>\<open>scores.csv\<close>: columns \<open>fecha\<close>, \<open>email\<close> (here \<open>jugador_email\<close>),
  \<open>nombre_mostrar\<close>, \<open>hoyo_1 .. hoyo_14\<close> (here the list \<open>hoyos\<close>) and \<open>total\<close>
  (here \<open>total_golpes\<close>).\<close>

record score_row =
  fecha :: int
  jugador_email :: cell
  nombre_mostrar :: cell
  hoyos :: "int list"
  total_golpes :: int

definition cols_scores :: "string list" where
  "cols_scores = [''fecha'', ''email'', ''nombre_mostrar''] @
     [''hoyo_1'', ''hoyo_2'', ''hoyo_3'', ''hoyo_4'', ''hoyo_5'', ''hoyo_6'', ''hoyo_7'',
      ''hoyo_8'', ''hoyo_9'', ''hoyo_10'', ''hoyo_11'', ''hoyo_12'', ''hoyo_13'', ''hoyo_14''] @
     [''total'']"

definition csv_user_row :: "user_row \<Rightarrow> user_row" where
  "csv_user_row r = r\<lparr>email := csv_cell (email r), nombre := csv_cell (nombre r),
     nickname := csv_cell (nickname r), fecha_registro := csv_cell (fecha_registro r)\<rparr>"

definition csv_score_row :: "score_row \<Rightarrow> score_row" where
  "csv_score_row r = r\<lparr>jugador_email := csv_cell (jugador_email r),
     nombre_mostrar := csv_cell (nombre_mostrar r)\<rparr>"

section \<open>Program state\<close>

datatype aviso = ErrorConectando string | ErrorEscribir string

text \<open>The two local files, \<open>st.session_state["user"]\<close>, the rows of the remote worksheet and
  the warnings shown in the sidebar.\<close>

record state =
  usuarios_csv :: "user_row csv_file"
  scores_csv :: "score_row csv_file"
  session_user :: "user_row option"
  gsheet :: "cell list list"
  sidebar_warnings :: "aviso list"

text \<open>What the Google Sheets side does when called: whether the libraries were imported
  (\<open>USE_GOOGLE_SHEETS\<close> after the guarded import), the exception raised while building the
  client, and the exception raised while opening the sheet or appending the row
  (\<open>None\<close>: no exception).\<close>

record gsheets =
  use_google_sheets :: bool
  authorize_raises :: "string option"
  append_row_raises :: "string option"


section \<open>Google Sheets\<close>

definition get_gsheet_client :: "gsheets \<Rightarrow> state \<Rightarrow> bool \<times> state" where
  "get_gsheet_client env st =
     (if \<not> use_google_sheets env then (False, st)
      else case authorize_raises env of
             Some e \<Rightarrow> (False, st\<lparr>sidebar_warnings := sidebar_warnings st @ [ErrorConectando e]\<rparr>)
           | None \<Rightarrow> (True, st))"

definition append_to_gsheet :: "gsheets \<Rightarrow> cell list \<Rightarrow> state \<Rightarrow> state" where
  "append_to_gsheet env row_list st =
     (if \<not> use_google_sheets env then st
      else case get_gsheet_client env st of
             (False, st1) \<Rightarrow> st1
           | (True, st1) \<Rightarrow>
               (case append_row_raises env of
                  Some e \<Rightarrow> st1\<lparr>sidebar_warnings := sidebar_warnings st1 @ [ErrorEscribir e]\<rparr>
                | None \<Rightarrow> st1\<lparr>gsheet := gsheet st1 @ [row_list]\<rparr>))"

section \<open>Session and users\<close>

definition load_users :: "state \<Rightarrow> user_row list" where
  "load_users st = (case usuarios_csv st of Csv filas \<Rightarrow> map csv_user_row filas | _ \<Rightarrow> [])"

definition save_users :: "user_row list \<Rightarrow> state \<Rightarrow> state" where
  "save_users df st = st\<lparr>usuarios_csv := Csv df\<rparr>"

text \<open>\<open>datetime.now().strftime("%Y-%m-%d %H:%M:%S")\<close>: the clock reading, in microseconds,
  cut to whole seconds.\<close>

definition strftime :: "int \<Rightarrow> int" where
  "strftime ahora = ahora - ahora mod 1000000"

text \<open>\<open>email in df["email"].values\<close> and \<open>df[df["email"] == email].iloc[0]\<close> are one search
  for the first row whose email cell is that string.\<close>

definition login_or_register :: "int \<Rightarrow> string \<Rightarrow> string \<Rightarrow> string \<Rightarrow> state \<Rightarrow> user_row \<times> state" where
  "login_or_register ahora email_in nombre_in nickname_in st =
     (let df = load_users st;
          e = lower (strip email_in)
      in case find (\<lambda>r. email r = Str e) df of
           Some fila \<Rightarrow>
             let u1 = (if strip nombre_in \<noteq> [] then fila\<lparr>nombre := Str (strip nombre_in)\<rparr> else fila);
                 user_row = (if strip nickname_in \<noteq> [] then u1\<lparr>nickname := Str (strip nickname_in)\<rparr> else u1);
                 df' = map (\<lambda>r. if email r = Str e
                                  then r\<lparr>nombre := nombre user_row, nickname := nickname user_row\<rparr>
                                  else r) df
             in (user_row, (save_users df' st)\<lparr>session_user := Some user_row\<rparr>)
         | None \<Rightarrow>
             let nueva = \<lparr>email = Str e, nombre = Str (strip nombre_in),
                          nickname = Str (strip nickname_in),
                          fecha_registro = Fecha (strftime ahora)\<rparr>
             in (nueva, (save_users (df @ [nueva]) st)\<lparr>session_user := Some nueva\<rparr>))"

definition login_user :: "string \<Rightarrow> state \<Rightarrow> user_row option \<times> state" where
  "login_user email_in st =
     (let df = load_users st;
          e = lower (strip email_in)
      in case find (\<lambda>r. email r = Str e) df of
           Some fila \<Rightarrow> (Some fila, st\<lparr>session_user := Some fila\<rparr>)
         | None \<Rightarrow> (None, st))"

definition get_display_name :: "user_row option \<Rightarrow> cell" where
  "get_display_name user =
     (case user of
        None \<Rightarrow> Str []
      | Some u \<Rightarrow>
          if truthy (nickname u) then nickname u
          else if truthy (nombre u) then nombre u
          else email u)"

text \<open>
  \<open>EMAIL_RE.match(s)\<close> for \<open>[^@]+@[^@]+\.[^@]+\<close>: \<open>match\<close> anchors the pattern at the start
  of \<open>s\<close> only. The first group is the run before the first \<open>@\<close>; after that \<open>@\<close>, the
  run up to the next \<open>@\<close> (or the end) must hold a dot with a character before it and a
  character after it.
\<close>

definition EMAIL_RE_match :: "string \<Rightarrow> bool" where
  "EMAIL_RE_match s =
     (let loc = takeWhile (\<lambda>c. c \<noteq> CHR ''@'') s;
          resto = dropWhile (\<lambda>c. c \<noteq> CHR ''@'') s
      in loc \<noteq> [] \<and> resto \<noteq> [] \<and>
         CHR ''.'' \<in> set (tl (butlast (takeWhile (\<lambda>c. c \<noteq> CHR ''@'') (tl resto)))))"

text \<open>
  The shape \<open>local@domain.tld\<close> in the specification's words, for comparison with the
  pattern: the whole string is a local part, an \<open>@\<close>, a domain, a dot and a final part,
  each non-empty and free of \<open>@\<close>.
\<close>

definition local_domain_tld :: "string \<Rightarrow> bool" where
  "local_domain_tld s =
     (\<exists>loc dom tld. s = loc @ ''@'' @ dom @ ''.'' @ tld \<and>
        loc \<noteq> [] \<and> dom \<noteq> [] \<and> tld \<noteq> [] \<and>
        CHR ''@'' \<notin> set loc \<and> CHR ''@'' \<notin> set dom \<and> CHR ''@'' \<notin> set tld)"

section \<open>Screen: login and registration\<close>

datatype form_error = EmailObligatorio | EmailInvalido

datatype entrar = Bienvenido user_row | UsuarioNoEncontrado

definition form_entrar :: "string \<Rightarrow> state \<Rightarrow> (form_error + entrar) \<times> state" where
  "form_entrar email_login st =
     (if strip email_login = [] then (Inl EmailObligatorio, st)
      else if \<not> EMAIL_RE_match (strip email_login) then (Inl EmailInvalido, st)
      else case login_user email_login st of
             (Some user, st') \<Rightarrow> (Inr (Bienvenido user), st')
           | (None, st') \<Rightarrow> (Inr UsuarioNoEncontrado, st'))"

definition form_registrar ::
    "int \<Rightarrow> string \<Rightarrow> string \<Rightarrow> string \<Rightarrow> state \<Rightarrow> (form_error + user_row) \<times> state" where
  "form_registrar ahora email_reg nombre_reg nick_reg st =
     (if strip email_reg = [] then (Inl EmailObligatorio, st)
      else if \<not> EMAIL_RE_match (strip email_reg) then (Inl EmailInvalido, st)
      else case login_or_register ahora email_reg nombre_reg nick_reg st of
             (user, st') \<Rightarrow> (Inr user, st'))"

text \<open>A run of registration submissions, each \<open>(clock, email, name, nickname)\<close>.\<close>

fun registros :: "(int \<times> string \<times> string \<times> string) list \<Rightarrow> state \<Rightarrow> state" where
  "registros [] st = st"
| "registros ((ahora, e, n, k) # cs) st = registros cs (snd (form_registrar ahora e n k st))"

text \<open>
  The identity invariant, on the table \<open>load_users\<close> returns: no two rows share an email
  cell, and every email cell is a non-empty string that normalisation (\<open>strip\<close>, then
  \<open>lower\<close>) leaves as it is.
\<close>

fun email_normalizado :: "cell \<Rightarrow> bool" where
  "email_normalizado (Str a) = (a \<noteq> [] \<and> lower (strip a) = a)"
| "email_normalizado c = False"

definition one_profile_per_email :: "user_row list \<Rightarrow> bool" where
  "one_profile_per_email df =
     (distinct (map email df) \<and> list_all email_normalizado (map email df))"

text \<open>What the existing-user branch of \<open>login_or_register\<close> makes of a row \<open>r\<close> with the
  submitted email, \<open>fila\<close> being the first such row.\<close>

definition actualizada :: "user_row \<Rightarrow> string \<Rightarrow> string \<Rightarrow> user_row \<Rightarrow> user_row" where
  "actualizada fila n k r =
     r\<lparr>nombre := (if strip n \<noteq> [] then Str (strip n) else nombre fila),
       nickname := (if strip k \<noteq> [] then Str (strip k) else nickname fila)\<rparr>"

section \<open>Screen: score entry\<close>

text \<open>
  The form reads fourteen number inputs, one per hole, each made by
  \<open>st.number_input(min_value=1, max_value=20, value=3)\<close>: what such an input returns is an
  integer within its bounds (3 until the player changes it). \<open>golpe\<close> is the type of these
  values, and \<open>valor i\<close> is what the input of hole \<open>i\<close> returns.
\<close>

typedef golpe = "{1..20::int}"
  by (rule exI [of _ 3]) simp

definition form_puntaje_golpes :: "(nat \<Rightarrow> golpe) \<Rightarrow> int list" where
  "form_puntaje_golpes valor = map (\<lambda>i. Rep_golpe (valor i)) [1..<15]"

datatype error = CsvReadError | ValueError

datatype resultado = Bloqueado | Fallo error | Guardado int

definition read_scores :: "state \<Rightarrow> error + score_row list" where
  "read_scores st =
     (case scores_csv st of Csv filas \<Rightarrow> Inr (map csv_score_row filas) | _ \<Rightarrow> Inl CsvReadError)"

text \<open>
  The body of \<open>if submit_puntaje:\<close>, behind the gate that stops the script when nobody is
  logged in. \<open>df_scores.loc[len(df_scores)] = nueva_fila\<close> raises \<open>ValueError\<close> when the list
  has not one value per column; otherwise it adds the row at the end. An exception leaves
  the script before \<open>to_csv\<close>.
\<close>

definition submit_puntaje :: "gsheets \<Rightarrow> int \<Rightarrow> int list \<Rightarrow> state \<Rightarrow> resultado \<times> state" where
  "submit_puntaje env ahora golpes st =
     (case session_user st of
        None \<Rightarrow> (Bloqueado, st)
      | Some u \<Rightarrow>
          let display_name = get_display_name (Some u);
              user_email = email u;
              total = sum_list golpes;
              fecha_s = strftime ahora
          in (case read_scores st of
                Inl err \<Rightarrow> (Fallo err, st)
              | Inr df_scores \<Rightarrow>
                  let nueva_fila = [Fecha fecha_s, user_email, display_name] @ map Num golpes @ [Num total]
                  in if length nueva_fila \<noteq> length cols_scores then (Fallo ValueError, st)
                     else
                       let fila = \<lparr>fecha = fecha_s, jugador_email = user_email,
                                    nombre_mostrar = display_name, hoyos = golpes,
                                    total_golpes = total\<rparr>;
                           st1 = st\<lparr>scores_csv := Csv (df_scores @ [fila])\<rparr>
                       in (Guardado total, append_to_gsheet env nueva_fila st1)))"

text \<open>The form as a whole: the strokes are what the fourteen inputs return.\<close>

definition form_puntaje :: "gsheets \<Rightarrow> int \<Rightarrow> (nat \<Rightarrow> golpe) \<Rightarrow> state \<Rightarrow> resultado \<times> state" where
  "form_puntaje env ahora valor st = submit_puntaje env ahora (form_puntaje_golpes valor) st"

text \<open>The row of a saved scorecard as \<open>read_csv\<close> gives it back.\<close>

definition fila_guardada :: "int \<Rightarrow> user_row \<Rightarrow> int list \<Rightarrow> score_row" where
  "fila_guardada ahora u golpes =
     csv_score_row \<lparr>fecha = strftime ahora, jugador_email = email u,
       nombre_mostrar = get_display_name (Some u), hoyos = golpes,
       total_golpes = sum_list golpes\<rparr>"

section \<open>Screen: ranking\<close>

datatype filtro = Historico | Hoy | Ultimos7 | Ultimos30

definition dia :: "int \<Rightarrow> int" where
  "dia t = t div 86400000000"

definition timedelta_days :: "int \<Rightarrow> int" where
  "timedelta_days n = n * 86400000000"

fun aplicar_filtro :: "filtro \<Rightarrow> int \<Rightarrow> score_row list \<Rightarrow> score_row list" where
  "aplicar_filtro Historico ahora df = df"
| "aplicar_filtro Hoy ahora df = filter (\<lambda>r. dia (fecha r) = dia ahora) df"
| "aplicar_filtro Ultimos7 ahora df = filter (\<lambda>r. fecha r \<ge> ahora - timedelta_days 7) df"
| "aplicar_filtro Ultimos30 ahora df = filter (\<lambda>r. fecha r \<ge> ahora - timedelta_days 30) df"

record ranking_row =
  pos :: nat
  r_fecha :: int
  r_nombre_mostrar :: cell
  r_email :: cell
  r_total :: int

datatype vista = SinPartidas | SinRegistros | Tabla "ranking_row list"

text \<open>
  \<open>df.sort_values("total")\<close> is pandas' sort with its default algorithm
  (\<open>kind="quicksort"\<close>), which the library documents as not stable. The ranking takes the
  sort as the parameter \<open>sort_values\<close>; what the library promises of it on a frame \<open>df\<close> is
  \<open>sort_values_ok\<close>: the same rows, by ascending total.
\<close>

definition sort_values_ok :: "(score_row list \<Rightarrow> score_row list) \<Rightarrow> score_row list \<Rightarrow> bool" where
  "sort_values_ok sort_values df =
     (mset (sort_values df) = mset df \<and> sorted (map total_golpes (sort_values df)))"

text \<open>The \<open>else\<close> branch: sort, number the rows from 1, keep five columns, \<open>head(50)\<close>.\<close>

definition mostrar :: "(score_row list \<Rightarrow> score_row list) \<Rightarrow> score_row list \<Rightarrow> ranking_row list" where
  "mostrar sort_values df =
     (let df1 = sort_values df;
          df2 = zip [1..<length df1 + 1] df1
      in take 50 (map (\<lambda>(p, r). \<lparr>pos = p, r_fecha = fecha r,
                                   r_nombre_mostrar = nombre_mostrar r,
                                   r_email = jugador_email r,
                                   r_total = total_golpes r\<rparr>) df2))"

definition ver_ranking ::
    "(score_row list \<Rightarrow> score_row list) \<Rightarrow> filtro \<Rightarrow> int \<Rightarrow> state \<Rightarrow> error + vista" where
  "ver_ranking sort_values f ahora st =
     (case read_scores st of
        Inl err \<Rightarrow> Inl err
      | Inr df \<Rightarrow>
          if df = [] then Inr SinPartidas
          else let df1 = aplicar_filtro f ahora df
               in if df1 = [] then Inr SinRegistros
                  else Inr (Tabla (mostrar sort_values df1)))"

text \<open>The rows a view shows (none for the two messages), and the four columns a ranking
  row takes from a scorecard.\<close>

fun filas_de_vista :: "vista \<Rightarrow> ranking_row list" where
  "filas_de_vista (Tabla filas) = filas"
| "filas_de_vista v = []"

definition columnas :: "score_row \<Rightarrow> int \<times> cell \<times> cell \<times> int" where
  "columnas r = (fecha r, nombre_mostrar r, jugador_email r, total_golpes r)"

definition columnas_ranking :: "ranking_row \<Rightarrow> int \<times> cell \<times> cell \<times> int" where
  "columnas_ranking r = (r_fecha r, r_nombre_mostrar r, r_email r, r_total r)"

section \<open>Example data\<close>

text \<open>The state right after \<open>init_files\<close> on a fresh installation: both tables empty,
  nobody logged in.\<close>

definition estado_inicial :: state where
  "estado_inicial = \<lparr>usuarios_csv = Csv [], scores_csv = Csv [], session_user = None,
     gsheet = [], sidebar_warnings = []\<rparr>"

text \<open>The row \<open>login_user\<close> reads back for a player registered as \<open>Ana\<close> with no
  nickname.\<close>

definition ana_sin_nick :: user_row where
  "ana_sin_nick = \<lparr>email = Str ''ana@club.com'', nombre = Str ''Ana'', nickname = NaN,
     fecha_registro = Fecha 0\<rparr>"

text \<open>The users file after Ana registered with a name and no nickname.\<close>

definition estado_ana :: state where
  "estado_ana = estado_inicial\<lparr>usuarios_csv := Csv [ana_sin_nick]\<rparr>"

text \<open>Two registrations under the same address, written differently; the second gives a
  name.\<close>

definition dos_registros :: "(int \<times> string \<times> string \<times> string) list" where
  "dos_registros = [(0, ''A@B.com'', [], []), (1000000, ''a@b.com'', ''X'', [])]"

text \<open>Ana logged in, no score saved yet; a Google Sheets side whose credentials file is
  missing.\<close>

definition sesion_ana :: state where
  "sesion_ana = estado_ana\<lparr>session_user := Some ana_sin_nick\<rparr>"

definition sin_credenciales :: gsheets where
  "sin_credenciales = \<lparr>use_google_sheets = True,
     authorize_raises = Some ''No such file: service_account.json'',
     append_row_raises = None\<rparr>"

text \<open>Sixty scorecards; the four scorecards with totals 50, 42, 42, 60, alone in the
  scores file and then with Ana logged in.\<close>

definition sesenta_partidas :: "score_row list" where
  "sesenta_partidas =
     map (\<lambda>i. \<lparr>fecha = int i * 1000000, jugador_email = Str ''ana@club.com'',
                nombre_mostrar = Str ''Ana'', hoyos = replicate 13 1 @ [1 + int ((7 * i) mod 20)],
                total_golpes = 14 + int ((7 * i) mod 20)\<rparr>)
       [0..<60]"

definition estado_sesenta :: state where
  "estado_sesenta = estado_inicial\<lparr>scores_csv := Csv sesenta_partidas\<rparr>"

definition cuatro_partidas :: "score_row list" where
  "cuatro_partidas =
     [\<lparr>fecha = 0, jugador_email = Str ''ana@club.com'', nombre_mostrar = Str ''Ana'',
        hoyos = replicate 12 3 @ [7, 7], total_golpes = 50\<rparr>,
      \<lparr>fecha = 60000000, jugador_email = Str ''luis@club.com'', nombre_mostrar = Str ''Luis'',
        hoyos = replicate 14 3, total_golpes = 42\<rparr>,
      \<lparr>fecha = 120000000, jugador_email = Str ''eva@club.com'', nombre_mostrar = Str ''Eva'',
        hoyos = replicate 14 3, total_golpes = 42\<rparr>,
      \<lparr>fecha = 180000000, jugador_email = Str ''ana@club.com'', nombre_mostrar = Str ''Ana'',
        hoyos = replicate 12 3 @ [12, 12], total_golpes = 60\<rparr>]"

definition estado_cuatro :: state where
  "estado_cuatro = estado_inicial\<lparr>scores_csv := Csv cuatro_partidas\<rparr>"


section \<open>Python strings: facts\<close>

lemma lower_char_idem: "lower_char (lower_char c) = lower_char c"
  by (auto simp: lower_char_def Let_def)

lemma isspace_lower_char: "isspace (lower_char c) = isspace c"
  by (auto simp: lower_char_def Let_def isspace_def)

lemma strip_lower: "strip (lower s) = lower (strip s)"
  by (simp add: strip_def lower_def dropWhile_map rev_map comp_def isspace_lower_char)

lemma rev_dropWhile_rev_prefix: "\<exists>zs. xs = rev (dropWhile P (rev xs)) @ zs"
proof -
  have "rev xs = takeWhile P (rev xs) @ dropWhile P (rev xs)" by simp
  then have "xs = rev (dropWhile P (rev xs)) @ rev (takeWhile P (rev xs))"
    by (metis rev_append rev_rev_ident)
  then show ?thesis ..
qed

lemma dropWhile_fixed: "xs = [] \<or> \<not> P (hd xs) \<Longrightarrow> dropWhile P xs = xs"
  by (cases xs) auto

lemma strip_idem: "strip (strip s) = strip s"
proof -
  let ?a = "dropWhile isspace s"
  let ?b = "rev (dropWhile isspace (rev ?a))"
  obtain zs where a: "?a = ?b @ zs"
    using rev_dropWhile_rev_prefix by blast
  have "?b = [] \<or> \<not> isspace (hd ?b)"
  proof (cases "?b = []")
    case False
    then have "hd ?b = hd ?a" using a by (metis hd_append2)
    moreover have "?a \<noteq> []"
    proof
      assume "?a = []"
      with False show False by (metis dropWhile.simps(1) rev.simps(1))
    qed
    ultimately show ?thesis using hd_dropWhile [of isspace s] by simp
  qed simp
  then have "dropWhile isspace ?b = ?b" by (rule dropWhile_fixed)
  then show ?thesis
    by (simp add: strip_def dropWhile_idem)
qed

lemma lower_idem: "lower (lower s) = lower s"
  by (simp add: lower_def lower_char_idem)

lemma normalizar_idem: "lower (strip (lower (strip s))) = lower (strip s)"
  by (simp add: strip_lower strip_idem lower_idem)

section \<open>The users table\<close>

lemma csv_cell_idem: "csv_cell (csv_cell c) = csv_cell c"
  by (cases c) auto

lemma csv_user_row_idem: "csv_user_row (csv_user_row r) = csv_user_row r"
  by (simp add: csv_user_row_def csv_cell_idem)

lemma load_users_fixed: "r \<in> set (load_users st) \<Longrightarrow> csv_user_row r = r"
  by (auto simp: load_users_def csv_user_row_idem split: csv_file.splits)

lemma load_users_save: "load_users ((save_users df st)\<lparr>session_user := u\<rparr>) = map csv_user_row df"
  by (simp add: load_users_def save_users_def)

lemma csv_user_row_fields:
  "csv_user_row r = r \<Longrightarrow> csv_cell (email r) = email r \<and> csv_cell (nombre r) = nombre r \<and>
     csv_cell (nickname r) = nickname r \<and> csv_cell (fecha_registro r) = fecha_registro r"
  by (cases r) (simp add: csv_user_row_def)


lemma login_or_register_existing:
  assumes "find (\<lambda>r. email r = Str (lower (strip e))) (load_users st) = Some fila"
  shows "load_users (snd (login_or_register ahora e n k st)) =
         map (\<lambda>r. if email r = Str (lower (strip e)) then actualizada fila n k r else r) (load_users st)"
    and "fst (login_or_register ahora e n k st) = actualizada fila n k fila"
proof -
  have fila: "csv_user_row fila = fila"
    using assms load_users_fixed by (metis find_Some_iff nth_mem)
  have fixed: "csv_user_row (if email r = Str (lower (strip e)) then actualizada fila n k r else r) =
      (if email r = Str (lower (strip e)) then actualizada fila n k r else r)"
    if "r \<in> set (load_users st)" for r
    using load_users_fixed [OF that] csv_user_row_fields [OF fila]
    by (cases r) (auto simp: actualizada_def csv_user_row_def)
  show "load_users (snd (login_or_register ahora e n k st)) =
         map (\<lambda>r. if email r = Str (lower (strip e)) then actualizada fila n k r else r) (load_users st)"
  proof -
    let ?g = "\<lambda>r. if email r = Str (lower (strip e)) then actualizada fila n k r else r"
    have "load_users (snd (login_or_register ahora e n k st)) = map csv_user_row (map ?g (load_users st))"
      using assms by (simp add: login_or_register_def Let_def load_users_save actualizada_def)
    also have "\<dots> = map ?g (load_users st)"
      using fixed by (simp add: map_idI)
    finally show ?thesis .
  qed
  show "fst (login_or_register ahora e n k st) = actualizada fila n k fila"
    using assms by (auto simp: login_or_register_def Let_def actualizada_def)
qed

lemma login_or_register_new:
  assumes "find (\<lambda>r. email r = Str (lower (strip e))) (load_users st) = None"
  shows "load_users (snd (login_or_register ahora e n k st)) =
         load_users st @ [csv_user_row \<lparr>email = Str (lower (strip e)), nombre = Str (strip n),
            nickname = Str (strip k), fecha_registro = Fecha (strftime ahora)\<rparr>]"
proof -
  have "map csv_user_row (load_users st) = load_users st"
    using load_users_fixed by (simp add: map_idI)
  then show ?thesis
    using assms by (simp add: login_or_register_def Let_def load_users_save)
qed


lemma EMAIL_RE_match_nonempty: "EMAIL_RE_match s \<Longrightarrow> s \<noteq> []"
  by (auto simp: EMAIL_RE_match_def Let_def)

lemma form_registrar_rejected:
  "\<not> EMAIL_RE_match (strip e) \<Longrightarrow> snd (form_registrar ahora e n k st) = st"
  by (simp add: form_registrar_def)

lemma form_registrar_accepted:
  "EMAIL_RE_match (strip e) \<Longrightarrow>
   form_registrar ahora e n k st =
     (Inr (fst (login_or_register ahora e n k st)), snd (login_or_register ahora e n k st))"
  by (auto simp: form_registrar_def dest: EMAIL_RE_match_nonempty split: prod.splits)

lemma form_registrar_emails:
  "set (map email (load_users st)) \<subseteq> set (map email (load_users (snd (form_registrar ahora e n k st))))"
proof (cases "EMAIL_RE_match (strip e)")
  case False
  then show ?thesis by (simp add: form_registrar_rejected)
next
  case True
  show ?thesis
  proof (cases "find (\<lambda>r. email r = Str (lower (strip e))) (load_users st)")
    case None
    then show ?thesis
      using True by (auto simp: form_registrar_accepted login_or_register_new)
  next
    case (Some fila)
    have "map email (load_users (snd (login_or_register ahora e n k st))) = map email (load_users st)"
      by (simp add: login_or_register_existing(1) [OF Some] actualizada_def comp_def if_distrib cong: if_cong)
    then show ?thesis
      using True by (simp add: form_registrar_accepted)
  qed
qed

lemma lower_nonempty: "s \<noteq> [] \<Longrightarrow> lower s \<noteq> []"
  by (simp add: lower_def)

lemma form_registrar_present:
  assumes "EMAIL_RE_match (strip e)"
  shows "Str (lower (strip e)) \<in> set (map email (load_users (snd (form_registrar ahora e n k st))))"
proof (cases "find (\<lambda>r. email r = Str (lower (strip e))) (load_users st)")
  case None
  have "lower (strip e) \<noteq> []"
    using assms by (simp add: lower_nonempty EMAIL_RE_match_nonempty)
  then show ?thesis
    using assms None
    by (simp add: form_registrar_accepted login_or_register_new csv_user_row_def)
next
  case (Some fila)
  then have "fila \<in> set (load_users st)" "email fila = Str (lower (strip e))"
    by (auto simp: find_Some_iff)
  then have "Str (lower (strip e)) \<in> set (map email (load_users st))"
    by force
  then show ?thesis
    using form_registrar_emails by blast
qed

lemma form_registrar_one_profile:
  assumes "one_profile_per_email (load_users st)"
  shows "one_profile_per_email (load_users (snd (form_registrar ahora e n k st)))"
proof (cases "EMAIL_RE_match (strip e)")
  case False
  then show ?thesis using assms by (simp add: form_registrar_rejected)
next
  case True
  let ?c = "lower (strip e)"
  have ne: "?c \<noteq> []"
    using True by (simp add: lower_nonempty EMAIL_RE_match_nonempty)
  show ?thesis
  proof (cases "find (\<lambda>r. email r = Str ?c) (load_users st)")
    case None
    then have "Str ?c \<notin> set (map email (load_users st))"
      by (auto simp: find_None_iff)
    then show ?thesis
      using assms True None ne
      by (simp add: form_registrar_accepted login_or_register_new csv_user_row_def
          one_profile_per_email_def normalizar_idem)
  next
    case (Some fila)
    have "map email (load_users (snd (login_or_register ahora e n k st))) = map email (load_users st)"
      by (simp add: login_or_register_existing(1) [OF Some] actualizada_def comp_def if_distrib cong: if_cong)
    then show ?thesis
      using assms True
      by (simp add: form_registrar_accepted one_profile_per_email_def)
  qed
qed

lemma registros_one_profile:
  "one_profile_per_email (load_users st) \<Longrightarrow> one_profile_per_email (load_users (registros cs st))"
  by (induction cs st rule: registros.induct) (simp_all add: form_registrar_one_profile)

lemma registros_emails:
  "set (map email (load_users st)) \<subseteq> set (map email (load_users (registros cs st)))"
proof (induction cs st rule: registros.induct)
  case (1 st)
  then show ?case by simp
next
  case (2 ahora e n k cs st)
  then show ?case
    using form_registrar_emails [of st ahora e n k] by auto
qed

lemma registros_present:
  "(ahora, e, n, k) \<in> set cs \<Longrightarrow> EMAIL_RE_match (strip e) \<Longrightarrow>
   Str (lower (strip e)) \<in> set (map email (load_users (registros cs st)))"
proof (induction cs st rule: registros.induct)
  case (1 st)
  then show ?case by simp
next
  case (2 a' e' n' k' cs st)
  show ?case
  proof (cases "(ahora, e, n, k) = (a', e', n', k')")
    case True
    then have "Str (lower (strip e)) \<in> set (map email (load_users (snd (form_registrar a' e' n' k' st))))"
      using form_registrar_present [OF "2.prems"(2)] by simp
    then show ?thesis
      using registros_emails by (simp add: subset_iff)
  next
    case False
    then have "(ahora, e, n, k) \<in> set cs" using "2.prems"(1) by auto
    then show ?thesis using "2.IH" "2.prems"(2) by simp
  qed
qed

lemma distinct_filter_one:
  "distinct (map f xs) \<Longrightarrow> c \<in> set (map f xs) \<Longrightarrow> length (filter (\<lambda>r. f r = c) xs) = 1"
proof (induction xs)
  case Nil
  then show ?case by simp
next
  case (Cons x xs)
  show ?case
  proof (cases "f x = c")
    case True
    have "f x \<notin> f ` set xs"
      using Cons.prems(1) by simp
    then have "\<forall>r \<in> set xs. f r \<noteq> c"
      using True by blast
    then have "filter (\<lambda>r. f r = c) xs = []"
      by (simp add: filter_empty_conv)
    then show ?thesis using True by simp
  next
    case False
    then show ?thesis using Cons by auto
  qed
qed

section \<open>Blank input on update\<close>



section \<open>One profile per email\<close>

lemma dos_registros_eval:
  "load_users (registros dos_registros estado_inicial) =
     [\<lparr>email = Str ''a@b.com'', nombre = Str ''X'', nickname = NaN, fecha_registro = Fecha 0\<rparr>]"
  by code_simp

text \<open>
  Claim C4. If the users table has one row per email and only normalised emails, then
  after any run of registration submissions it still has, and every submission of the run
  whose email was accepted has exactly one row under its normalised email. The table of a
  fresh installation is such a table. In particular, registering \<open>A@B.com\<close> and then
  \<open>a@b.com\<close> with the name \<open>X\<close> leaves one row, with email \<open>a@b.com\<close>, name \<open>X\<close> and
  the registration date of the first submission.
\<close>

theorem one_profile_per_normalized_email:
  "(one_profile_per_email (load_users st) \<longrightarrow>
      one_profile_per_email (load_users (registros cs st)) \<and>
      (\<forall>(ahora, e, n, k) \<in> set cs. EMAIL_RE_match (strip e) \<longrightarrow>
         length (filter (\<lambda>r. email r = Str (lower (strip e))) (load_users (registros cs st))) = 1)) \<and>
   one_profile_per_email (load_users estado_inicial) \<and>
   load_users (registros dos_registros estado_inicial) =
     [\<lparr>email = Str ''a@b.com'', nombre = Str ''X'', nickname = NaN, fecha_registro = Fecha 0\<rparr>]"
proof -
  have general: "one_profile_per_email (load_users (registros cs st)) \<and>
      (\<forall>(ahora, e, n, k) \<in> set cs. EMAIL_RE_match (strip e) \<longrightarrow>
         length (filter (\<lambda>r. email r = Str (lower (strip e))) (load_users (registros cs st))) = 1)"
    if inv: "one_profile_per_email (load_users st)"
  proof -
    have kept: "one_profile_per_email (load_users (registros cs st))"
      using inv by (rule registros_one_profile)
    then have d: "distinct (map email (load_users (registros cs st)))"
      by (simp add: one_profile_per_email_def)
    have "length (filter (\<lambda>r. email r = Str (lower (strip e))) (load_users (registros cs st))) = 1"
      if "(ahora, e, n, k) \<in> set cs" "EMAIL_RE_match (strip e)" for ahora e n k
      using distinct_filter_one [OF d registros_present [OF that]] .
    with kept show ?thesis by blast
  qed
  have start: "one_profile_per_email (load_users estado_inicial)"
    by (simp add: one_profile_per_email_def load_users_def estado_inicial_def)
  show ?thesis
    using general start dos_registros_eval by blast
qed

theorem one_profile_per_normalized_email_witness:
  "one_profile_per_email (load_users estado_inicial) \<and>
   one_profile_per_email (load_users (registros dos_registros estado_inicial)) \<and>
   EMAIL_RE_match (strip ''a@b.com'') \<and>
   length (filter (\<lambda>r. email r = Str (lower (strip ''a@b.com'')))
             (load_users (registros dos_registros estado_inicial))) = 1"
proof -
  have m: "EMAIL_RE_match (strip ''a@b.com'')"
    by code_simp
  have i: "(1000000, ''a@b.com'', ''X'', []) \<in> set dos_registros"
    by (simp add: dos_registros_def)
  show ?thesis
    using one_profile_per_normalized_email [of estado_inicial dos_registros] m i
    by fastforce
qed

section \<open>The display name\<close>

lemma get_display_name_text:
  "get_display_name (Some \<lparr>email = Str e, nombre = Str n, nickname = Str k, fecha_registro = f\<rparr>) =
     Str (if k \<noteq> [] then k else if n \<noteq> [] then n else e)"
  by (simp add: get_display_name_def)

lemma get_display_name_None: "get_display_name None = Str []"
  by (simp add: get_display_name_def)

text \<open>
  Claim C6. The display name is meant to be the nickname if there is one, else the name,
  else the email. Register Ana with a name and no nickname, then log her in: the row
  \<open>login_user\<close> reads back from the file has \<open>nan\<close> for the empty nickname field, \<open>nan\<close>
  counts as true, and \<open>get_display_name\<close> returns it instead of the name.
\<close>

theorem display_name_nan:
  "fst (form_entrar ''ana@club.com''
          (snd (form_registrar 0 ''ana@club.com'' ''Ana'' [] estado_inicial))) =
     Inr (Bienvenido ana_sin_nick) \<and>
   get_display_name (Some ana_sin_nick) = NaN"
  by code_simp

section \<open>Saving a scorecard\<close>

lemma csv_score_row_idem: "csv_score_row (csv_score_row r) = csv_score_row r"
  by (simp add: csv_score_row_def csv_cell_idem)

lemma read_scores_fixed: "read_scores st = Inr old \<Longrightarrow> map csv_score_row old = old"
  by (auto simp: read_scores_def csv_score_row_idem split: csv_file.splits)

lemma read_scores_append_to_gsheet: "read_scores (append_to_gsheet env fila st) = read_scores st"
  by (simp add: read_scores_def append_to_gsheet_def get_gsheet_client_def split: option.splits)


lemma length_cols_scores: "length cols_scores = 18"
  by (simp add: cols_scores_def)

lemma submit_puntaje_saved:
  assumes "session_user st = Some u" and "read_scores st = Inr old" and "length golpes = 14"
  shows "fst (submit_puntaje env ahora golpes st) = Guardado (sum_list golpes)"
    and "read_scores (snd (submit_puntaje env ahora golpes st)) = Inr (old @ [fila_guardada ahora u golpes])"
    and "snd (submit_puntaje env ahora golpes st) =
           append_to_gsheet env
             ([Fecha (strftime ahora), email u, get_display_name (Some u)] @ map Num golpes @ [Num (sum_list golpes)])
             (st\<lparr>scores_csv := Csv (old @ [\<lparr>fecha = strftime ahora, jugador_email = email u,
       nombre_mostrar = get_display_name (Some u), hoyos = golpes,
       total_golpes = sum_list golpes\<rparr>])\<rparr>)"
proof -
  show 1: "fst (submit_puntaje env ahora golpes st) = Guardado (sum_list golpes)"
    using assms by (simp add: submit_puntaje_def Let_def length_cols_scores)
  show 3: "snd (submit_puntaje env ahora golpes st) =
           append_to_gsheet env
             ([Fecha (strftime ahora), email u, get_display_name (Some u)] @ map Num golpes @ [Num (sum_list golpes)])
             (st\<lparr>scores_csv := Csv (old @ [\<lparr>fecha = strftime ahora, jugador_email = email u,
       nombre_mostrar = get_display_name (Some u), hoyos = golpes,
       total_golpes = sum_list golpes\<rparr>])\<rparr>)"
    using assms by (simp add: submit_puntaje_def Let_def length_cols_scores)
  show "read_scores (snd (submit_puntaje env ahora golpes st)) = Inr (old @ [fila_guardada ahora u golpes])"
    unfolding 3 read_scores_append_to_gsheet
    using read_scores_fixed [OF assms(2)]
    by (simp add: read_scores_def fila_guardada_def)
qed


lemma submit_puntaje_wrong_length:
  assumes "session_user st = Some u" and "length golpes \<noteq> 14"
  shows "\<exists>err. submit_puntaje env ahora golpes st = (Fallo err, st)"
  using assms
  by (auto simp: submit_puntaje_def Let_def length_cols_scores split: sum.splits)


lemma sesion_ana_facts:
  "session_user sesion_ana = Some ana_sin_nick" "read_scores sesion_ana = Inr []"
  by (simp_all add: sesion_ana_def estado_ana_def estado_inicial_def read_scores_def)

text \<open>
  Claim C2. A logged-in player submits fourteen strokes and the scores file is readable.
  Whatever the Google Sheets side does, the submission reports success with the sum of the
  strokes and the scores file holds the rows it held, followed by the new one. When the
  libraries are missing nothing is relayed and nothing is reported; when building the
  client raises, or opening the sheet or appending raises, the exception ends as one
  warning in the sidebar and the remote sheet is as it was.
\<close>

theorem mirror_failure_isolated:
  assumes "session_user st = Some u" and "read_scores st = Inr old" and "length golpes = 14"
  shows "fst (submit_puntaje env ahora golpes st) = Guardado (sum_list golpes) \<and>
         read_scores (snd (submit_puntaje env ahora golpes st)) =
           Inr (old @ [fila_guardada ahora u golpes]) \<and>
         (\<not> use_google_sheets env \<longrightarrow>
            sidebar_warnings (snd (submit_puntaje env ahora golpes st)) = sidebar_warnings st \<and>
            gsheet (snd (submit_puntaje env ahora golpes st)) = gsheet st) \<and>
         (use_google_sheets env \<and> authorize_raises env = Some e \<longrightarrow>
            sidebar_warnings (snd (submit_puntaje env ahora golpes st)) =
              sidebar_warnings st @ [ErrorConectando e] \<and>
            gsheet (snd (submit_puntaje env ahora golpes st)) = gsheet st) \<and>
         (use_google_sheets env \<and> authorize_raises env = None \<and> append_row_raises env = Some e \<longrightarrow>
            sidebar_warnings (snd (submit_puntaje env ahora golpes st)) =
              sidebar_warnings st @ [ErrorEscribir e] \<and>
            gsheet (snd (submit_puntaje env ahora golpes st)) = gsheet st)"
proof -
  note saved = submit_puntaje_saved [OF assms]
  have "sidebar_warnings (snd (submit_puntaje env ahora golpes st)) = sidebar_warnings st \<and>
        gsheet (snd (submit_puntaje env ahora golpes st)) = gsheet st"
    if "\<not> use_google_sheets env"
    using that by (simp add: saved(3) append_to_gsheet_def)
  moreover have "sidebar_warnings (snd (submit_puntaje env ahora golpes st)) =
        sidebar_warnings st @ [ErrorConectando e] \<and>
        gsheet (snd (submit_puntaje env ahora golpes st)) = gsheet st"
    if "use_google_sheets env" "authorize_raises env = Some e"
    using that by (simp add: saved(3) append_to_gsheet_def get_gsheet_client_def)
  moreover have "sidebar_warnings (snd (submit_puntaje env ahora golpes st)) =
        sidebar_warnings st @ [ErrorEscribir e] \<and>
        gsheet (snd (submit_puntaje env ahora golpes st)) = gsheet st"
    if "use_google_sheets env" "authorize_raises env = None" "append_row_raises env = Some e"
    using that by (simp add: saved(3) append_to_gsheet_def get_gsheet_client_def)
  ultimately show ?thesis
    using saved(1,2) by blast
qed

theorem mirror_failure_isolated_witness:
  "fst (submit_puntaje sin_credenciales 0 (replicate 14 3) sesion_ana) = Guardado 42 \<and>
   read_scores (snd (submit_puntaje sin_credenciales 0 (replicate 14 3) sesion_ana)) =
     Inr [fila_guardada 0 ana_sin_nick (replicate 14 3)] \<and>
   sidebar_warnings (snd (submit_puntaje sin_credenciales 0 (replicate 14 3) sesion_ana)) =
     [ErrorConectando ''No such file: service_account.json''] \<and>
   gsheet (snd (submit_puntaje sin_credenciales 0 (replicate 14 3) sesion_ana)) = []"
proof -
  have l: "length (replicate 14 (3::int)) = 14"
    by simp
  have s: "sum_list (replicate 14 (3::int)) = 42"
    by (simp add: sum_list_replicate)
  have w: "sidebar_warnings sesion_ana = []" "gsheet sesion_ana = []"
    by (simp_all add: sesion_ana_def estado_ana_def estado_inicial_def)
  have e: "use_google_sheets sin_credenciales"
      "authorize_raises sin_credenciales = Some ''No such file: service_account.json''"
    by (simp_all add: sin_credenciales_def)
  show ?thesis
    using mirror_failure_isolated [OF sesion_ana_facts l, where env = sin_credenciales
        and e = "''No such file: service_account.json''" and ahora = 0] e
    by (simp add: s w)
qed




text \<open>
  The strokes the form hands to the append path are always fourteen values, each from 1 to
  20; a list of another length would be refused by the table before anything is written
  (\<open>submit_puntaje_wrong_length\<close>). With a player logged in and the scores file readable,
  submitting the form saves the row.
\<close>

lemma form_puntaje_golpes_valid:
  "length (form_puntaje_golpes valor) = 14 \<and>
   (\<forall>g \<in> set (form_puntaje_golpes valor). 1 \<le> g \<and> g \<le> 20)"
proof -
  have "1 \<le> Rep_golpe x \<and> Rep_golpe x \<le> 20" for x
    using Rep_golpe [of x] by simp
  then show ?thesis
    by (simp add: form_puntaje_golpes_def)
qed

lemma form_puntaje_saved:
  assumes "session_user st = Some u" and "read_scores st = Inr old"
  shows "fst (form_puntaje env ahora valor st) = Guardado (sum_list (form_puntaje_golpes valor)) \<and>
         read_scores (snd (form_puntaje env ahora valor st)) =
           Inr (old @ [fila_guardada ahora u (form_puntaje_golpes valor)])"
proof -
  have l: "length (form_puntaje_golpes valor) = 14"
    by (simp add: form_puntaje_golpes_def)
  show ?thesis
    unfolding form_puntaje_def using submit_puntaje_saved(1,2) [OF assms l] by simp
qed

section \<open>The ranking\<close>

lemma sort_values_ok_length: "sort_values_ok srt df \<Longrightarrow> length (srt df) = length df"
  by (metis sort_values_ok_def size_mset)

lemma sort_values_ok_sort_key: "sort_values_ok (sort_key total_golpes) df"
  by (simp add: sort_values_ok_def)

lemma take_map_zip_upt:
  "length xs = n \<Longrightarrow> take m (map f (zip [1..<n + 1] xs)) = map f (zip [1..<min n m + 1] (take m xs))"
proof -
  assume n: "length xs = n"
  have "take m [1..<n + 1] = [1..<min n m + 1]"
    by (cases "m \<le> n") (simp_all add: min_def take_upt del: upt_Suc)
  then show ?thesis
    by (simp add: take_map take_zip del: upt_Suc)
qed

lemma mostrar_eq:
  assumes "sort_values_ok srt df"
  shows "mostrar srt df =
         map (\<lambda>(p, r). \<lparr>pos = p, r_fecha = fecha r, r_nombre_mostrar = nombre_mostrar r,
                         r_email = jugador_email r, r_total = total_golpes r\<rparr>)
           (zip [1..<min (length df) 50 + 1] (take 50 (srt df)))"
  using take_map_zip_upt [OF sort_values_ok_length [OF assms]]
  by (simp add: mostrar_def Let_def sort_values_ok_length [OF assms] del: upt_Suc)

lemma map_fst_zip_upt: "length ys = m \<Longrightarrow> map fst (zip [1..<m + 1] ys) = [1..<m + 1]"
  by (simp del: upt_Suc)

lemma mostrar_pos:
  assumes "sort_values_ok srt df"
  shows "map pos (mostrar srt df) = [1..<min (length df) 50 + 1]"
proof -
  have l: "length (take 50 (srt df)) = min (length df) 50"
    by (simp add: sort_values_ok_length [OF assms])
  have "map pos (mostrar srt df) = map fst (zip [1..<min (length df) 50 + 1] (take 50 (srt df)))"
    by (simp add: mostrar_eq [OF assms] case_prod_beta comp_def del: upt_Suc)
  also have "\<dots> = [1..<min (length df) 50 + 1]"
    using l by (rule map_fst_zip_upt)
  finally show ?thesis .
qed

lemma mostrar_columnas:
  assumes "sort_values_ok srt df"
  shows "map columnas_ranking (mostrar srt df) = map columnas (take 50 (srt df))"
proof -
  have l: "length (take 50 (srt df)) = min (length df) 50"
    by (simp add: sort_values_ok_length [OF assms])
  have "map columnas_ranking (mostrar srt df) =
        map columnas (map snd (zip [1..<min (length df) 50 + 1] (take 50 (srt df))))"
    by (simp add: mostrar_eq [OF assms] case_prod_beta comp_def columnas_def columnas_ranking_def
        del: upt_Suc)
  also have "\<dots> = map columnas (take 50 (srt df))"
    using l by (simp add: map_snd_zip del: upt_Suc)
  finally show ?thesis .
qed

lemma mostrar_total:
  assumes "sort_values_ok srt df"
  shows "map r_total (mostrar srt df) = take 50 (map total_golpes (srt df))"
proof -
  have "map r_total (mostrar srt df) = map (\<lambda>c. snd (snd (snd c))) (map columnas_ranking (mostrar srt df))"
    by (simp add: columnas_ranking_def comp_def)
  also have "\<dots> = map total_golpes (take 50 (srt df))"
    by (simp add: mostrar_columnas [OF assms] columnas_def comp_def)
  finally show ?thesis by (simp add: take_map)
qed

lemma sorted_take_le_drop:
  assumes "sorted (map f xs)"
  shows "\<forall>x \<in> set (take m xs). \<forall>y \<in> set (drop m xs). f x \<le> f y"
proof -
  have "sorted (map f (take m xs @ drop m xs))"
    using assms by simp
  then show ?thesis
    unfolding map_append sorted_append by auto
qed

lemma ver_ranking_vista:
  assumes "read_scores st = Inr df"
  shows "ver_ranking srt f ahora st =
         Inr (if df = [] then SinPartidas
              else if aplicar_filtro f ahora df = [] then SinRegistros
              else Tabla (mostrar srt (aplicar_filtro f ahora df)))"
  using assms by (simp add: ver_ranking_def Let_def)

lemma sort_values_ok_Nil: "sort_values_ok srt [] \<Longrightarrow> srt [] = []"
  by (simp add: sort_values_ok_def)

lemma mostrar_Nil: "sort_values_ok srt [] \<Longrightarrow> mostrar srt [] = []"
  by (simp add: mostrar_def sort_values_ok_Nil)

lemma filas_de_vista_ver_ranking:
  assumes "read_scores st = Inr df" and "sort_values_ok srt (aplicar_filtro f ahora df)"
  shows "\<exists>v. ver_ranking srt f ahora st = Inr v \<and>
             filas_de_vista v = mostrar srt (aplicar_filtro f ahora df)"
proof (cases "aplicar_filtro f ahora df = []")
  case True
  then show ?thesis
    using assms by (simp add: ver_ranking_vista [OF assms(1)] mostrar_Nil)
next
  case False
  then have "df \<noteq> []" by (cases f) auto
  then show ?thesis
    using False by (simp add: ver_ranking_vista [OF assms(1)])
qed

lemma read_scores_sesenta: "read_scores estado_sesenta = Inr sesenta_partidas"
  by (simp add: read_scores_def estado_sesenta_def estado_inicial_def sesenta_partidas_def
      csv_score_row_def comp_def)

lemma read_scores_cuatro: "read_scores estado_cuatro = Inr cuatro_partidas"
  by (simp add: read_scores_def estado_cuatro_def estado_inicial_def cuatro_partidas_def
      csv_score_row_def)

text \<open>
  Claim C9. Let \<open>df1\<close> be the rows of the scores file that pass the time filter, and let
  the sort do on \<open>df1\<close> what \<open>sort_values\<close> promises. Then the ranking shows
  \<open>min (length df1) 50\<close> rows, numbered \<open>1, 2, ...\<close> without gaps; they are the first rows
  of the sorted frame, in its order; no total shown is greater than a total left out, and
  the rows shown and the rows left out are together the rows of \<open>df1\<close>. With sixty rows,
  fifty are shown.
\<close>

theorem ranking_first_fifty:
  assumes "read_scores st = Inr df" and "aplicar_filtro f ahora df = df1"
    and "sort_values_ok srt df1"
  shows "\<exists>v. ver_ranking srt f ahora st = Inr v \<and>
           length (filas_de_vista v) = min (length df1) 50 \<and>
           map pos (filas_de_vista v) = [1..<min (length df1) 50 + 1] \<and>
           map columnas_ranking (filas_de_vista v) = map columnas (take 50 (srt df1)) \<and>
           (\<forall>x \<in> set (take 50 (srt df1)). \<forall>y \<in> set (drop 50 (srt df1)).
              total_golpes x \<le> total_golpes y) \<and>
           mset (take 50 (srt df1)) + mset (drop 50 (srt df1)) = mset df1 \<and>
           (length df1 = 60 \<longrightarrow> length (filas_de_vista v) = 50)"
proof -
  from assms obtain v where v: "ver_ranking srt f ahora st = Inr v"
      "filas_de_vista v = mostrar srt df1"
    using filas_de_vista_ver_ranking [of st df srt f ahora] by auto
  have p: "map pos (filas_de_vista v) = [1..<min (length df1) 50 + 1]"
    by (simp only: v(2) mostrar_pos [OF assms(3)])
  have "length (map pos (filas_de_vista v)) = min (length df1) 50"
    unfolding p by (simp del: upt_Suc)
  then have l: "length (filas_de_vista v) = min (length df1) 50"
    by simp
  have c: "map columnas_ranking (filas_de_vista v) = map columnas (take 50 (srt df1))"
    by (simp only: v(2) mostrar_columnas [OF assms(3)])
  have "sorted (map total_golpes (srt df1))"
    using assms(3) by (simp add: sort_values_ok_def)
  then have o: "\<forall>x \<in> set (take 50 (srt df1)). \<forall>y \<in> set (drop 50 (srt df1)).
      total_golpes x \<le> total_golpes y"
    by (rule sorted_take_le_drop)
  have "mset (take 50 (srt df1)) + mset (drop 50 (srt df1)) = mset (srt df1)"
    by (metis append_take_drop_id mset_append)
  then have m: "mset (take 50 (srt df1)) + mset (drop 50 (srt df1)) = mset df1"
    using assms(3) by (simp add: sort_values_ok_def)
  have s: "length df1 = 60 \<longrightarrow> length (filas_de_vista v) = 50"
    using l by simp
  show ?thesis
  proof (intro exI conjI)
    show "ver_ranking srt f ahora st = Inr v" by (rule v(1))
    show "length (filas_de_vista v) = min (length df1) 50" by (rule l)
    show "map pos (filas_de_vista v) = [1..<min (length df1) 50 + 1]" by (rule p)
    show "map columnas_ranking (filas_de_vista v) = map columnas (take 50 (srt df1))" by (rule c)
    show "\<forall>x \<in> set (take 50 (srt df1)). \<forall>y \<in> set (drop 50 (srt df1)).
      total_golpes x \<le> total_golpes y" by (rule o)
    show "mset (take 50 (srt df1)) + mset (drop 50 (srt df1)) = mset df1" by (rule m)
    show "length df1 = 60 \<longrightarrow> length (filas_de_vista v) = 50" by (rule s)
  qed
qed

theorem ranking_first_fifty_witness:
  "read_scores estado_sesenta = Inr sesenta_partidas \<and>
   length sesenta_partidas = 60 \<and>
   sort_values_ok (sort_key total_golpes) sesenta_partidas \<and>
   (\<exists>v. ver_ranking (sort_key total_golpes) Historico 0 estado_sesenta = Inr v \<and>
        length (filas_de_vista v) = 50 \<and>
        map pos (filas_de_vista v) = [1..<51])"
proof -
  have f: "aplicar_filtro Historico 0 sesenta_partidas = sesenta_partidas"
    by simp
  have l: "length sesenta_partidas = 60"
    by (simp add: sesenta_partidas_def)
  show ?thesis
    using ranking_first_fifty [OF read_scores_sesenta f sort_values_ok_sort_key]
      read_scores_sesenta sort_values_ok_sort_key [of sesenta_partidas] l
    by auto
qed

text \<open>
  Over the whole history, when the sort does on the stored rows what \<open>sort_values\<close>
  promises, the ranking shows totals in ascending order, numbered \<open>1, 2, ...\<close>, and with at
  most fifty rows stored it shows each of them once. For stored totals 50, 42, 42, 60 the
  ranking is 42, 42, 50, 60 at positions 1, 2, 3, 4. The order among equal totals is the
  sort's: it is fixed neither by this program nor by what \<open>sort_values\<close> promises.
\<close>

lemma ranking_ascending_by_total:
  assumes "read_scores st = Inr df" and "sort_values_ok srt df"
  shows "\<exists>v. ver_ranking srt Historico ahora st = Inr v \<and>
           sorted (map r_total (filas_de_vista v)) \<and>
           map pos (filas_de_vista v) = [1..<min (length df) 50 + 1] \<and>
           (length df \<le> 50 \<longrightarrow>
              mset (map columnas_ranking (filas_de_vista v)) = mset (map columnas df)) \<and>
           (map total_golpes df = [50, 42, 42, 60] \<longrightarrow>
              map r_total (filas_de_vista v) = [42, 42, 50, 60] \<and>
              map pos (filas_de_vista v) = [1, 2, 3, 4])"
proof -
  have ok: "sort_values_ok srt (aplicar_filtro Historico ahora df)"
    using assms(2) by simp
  from filas_de_vista_ver_ranking [OF assms(1) ok] obtain v where
    v: "ver_ranking srt Historico ahora st = Inr v" "filas_de_vista v = mostrar srt df"
    by auto
  have srt: "sorted (map total_golpes (srt df))" "mset (srt df) = mset df"
    using assms(2) by (simp_all add: sort_values_ok_def)
  have t: "map r_total (filas_de_vista v) = take 50 (map total_golpes (srt df))"
    by (simp only: v(2) mostrar_total [OF assms(2)])
  have s: "sorted (map r_total (filas_de_vista v))"
    unfolding t using srt(1) by (rule sorted_wrt_take)
  have p: "map pos (filas_de_vista v) = [1..<min (length df) 50 + 1]"
    by (simp only: v(2) mostrar_pos [OF assms(2)])
  have m: "mset (map columnas_ranking (filas_de_vista v)) = mset (map columnas df)"
    if "length df \<le> 50"
  proof -
    have "take 50 (srt df) = srt df"
      using that by (simp add: sort_values_ok_length [OF assms(2)])
    then have "map columnas_ranking (filas_de_vista v) = map columnas (srt df)"
      by (simp add: v(2) mostrar_columnas [OF assms(2)])
    then show ?thesis
      by (simp add: srt(2))
  qed
  have e: "map r_total (filas_de_vista v) = [42, 42, 50, 60] \<and>
           map pos (filas_de_vista v) = [1, 2, 3, 4]"
    if four: "map total_golpes df = [50, 42, 42, 60]"
  proof -
    have "mset (map total_golpes (srt df)) = mset [50, 42, 42, 60]"
      using srt(2) four by (metis mset_map)
    then have "sort [50, 42, 42, 60] = map total_golpes (srt df)"
      using srt(1) by (rule properties_for_sort)
    then have "map total_golpes (srt df) = [42, 42, 50, 60]"
      by simp
    then have "map r_total (filas_de_vista v) = [42, 42, 50, 60]"
      by (simp add: t)
    moreover have len: "length df = 4"
      using arg_cong [OF four, of length] by simp
    have u: "[1..<min (4::nat) 50 + 1] = [1, 2, 3, 4]"
      by code_simp
    have "map pos (filas_de_vista v) = [1, 2, 3, 4]"
      unfolding p len u ..
    ultimately show ?thesis by simp
  qed
  show ?thesis
  proof (intro exI conjI)
    show "ver_ranking srt Historico ahora st = Inr v" by (rule v(1))
    show "sorted (map r_total (filas_de_vista v))" by (rule s)
    show "map pos (filas_de_vista v) = [1..<min (length df) 50 + 1]" by (rule p)
    show "length df \<le> 50 \<longrightarrow>
      mset (map columnas_ranking (filas_de_vista v)) = mset (map columnas df)"
      using m by (rule impI)
    show "map total_golpes df = [50, 42, 42, 60] \<longrightarrow>
      map r_total (filas_de_vista v) = [42, 42, 50, 60] \<and>
      map pos (filas_de_vista v) = [1, 2, 3, 4]"
      using e by (rule impI)
  qed
qed

lemma ranking_cuatro_partidas:
  "read_scores estado_cuatro = Inr cuatro_partidas \<and>
   sort_values_ok (sort_key total_golpes) cuatro_partidas \<and>
   map total_golpes cuatro_partidas = [50, 42, 42, 60] \<and>
   (\<exists>v. ver_ranking (sort_key total_golpes) Historico 0 estado_cuatro = Inr v \<and>
        map r_total (filas_de_vista v) = [42, 42, 50, 60] \<and>
        map pos (filas_de_vista v) = [1, 2, 3, 4])"
proof -
  have t: "map total_golpes cuatro_partidas = [50, 42, 42, 60]"
    by (simp add: cuatro_partidas_def)
  show ?thesis
    using ranking_ascending_by_total [OF read_scores_cuatro sort_values_ok_sort_key, of 0]
      read_scores_cuatro sort_values_ok_sort_key [of cuatro_partidas] t
    by auto
qed

section \<open>Email validation\<close>

text \<open>The pattern, read by \<open>match\<close>, accepts exactly the strings that start with a string
  of the shape \<open>local@domain.tld\<close>; the registration form answers with an error exactly
  when the trimmed input is not accepted, and then changes nothing
  (\<open>form_registrar_rejected\<close>).\<close>

lemma takeWhile_no_at:
  "CHR ''@'' \<notin> set xs \<Longrightarrow> takeWhile (\<lambda>c. c \<noteq> CHR ''@'') (xs @ ys) = xs @ takeWhile (\<lambda>c. c \<noteq> CHR ''@'') ys"
  by (induction xs) auto

lemma dropWhile_no_at:
  "CHR ''@'' \<notin> set xs \<Longrightarrow> dropWhile (\<lambda>c. c \<noteq> CHR ''@'') (xs @ ys) = dropWhile (\<lambda>c. c \<noteq> CHR ''@'') ys"
  by (induction xs) auto

lemma dot_inside: "d \<noteq> [] \<Longrightarrow> t \<noteq> [] \<Longrightarrow> x \<in> set (tl (butlast (d @ x # t)))"
  by (cases d) (auto simp: butlast_append)

lemma inside_split:
  assumes "x \<in> set (tl (butlast m))"
  shows "\<exists>d t. m = d @ x # t \<and> d \<noteq> [] \<and> t \<noteq> []"
proof -
  from assms have "m \<noteq> []" by auto
  then obtain a m' where m: "m = a # m'" by (cases m) auto
  with assms have "m' \<noteq> []" by auto
  then obtain b z where m': "m' = b @ [z]" by (metis rev_exhaust)
  with m assms have "x \<in> set b" by (simp add: butlast_append)
  then obtain b1 b2 where "b = b1 @ x # b2" by (meson split_list)
  then have "m = (a # b1) @ x # (b2 @ [z])" using m m' by simp
  then show ?thesis by blast
qed

lemma EMAIL_RE_match_prefix:
  "EMAIL_RE_match s \<longleftrightarrow> (\<exists>p r. s = p @ r \<and> local_domain_tld p)"
proof
  assume match: "EMAIL_RE_match s"
  let ?P = "\<lambda>c. c \<noteq> CHR ''@''"
  let ?loc = "takeWhile ?P s"
  let ?resto = "dropWhile ?P s"
  let ?m = "takeWhile ?P (tl ?resto)"
  from match have loc: "?loc \<noteq> []" and resto: "?resto \<noteq> []"
    and dot: "CHR ''.'' \<in> set (tl (butlast ?m))"
    by (simp_all add: EMAIL_RE_match_def Let_def)
  from resto have "hd ?resto = CHR ''@''"
    using hd_dropWhile [of ?P s] by auto
  with resto have r: "?resto = CHR ''@'' # tl ?resto"
    by (cases ?resto) auto
  from inside_split [OF dot] obtain d t where m: "?m = d @ CHR ''.'' # t" "d \<noteq> []" "t \<noteq> []"
    by blast
  have no: "CHR ''@'' \<notin> set ?loc" "CHR ''@'' \<notin> set ?m"
    by (auto dest: set_takeWhileD)
  have "s = ?loc @ ?resto" by simp
  also have "\<dots> = ?loc @ CHR ''@'' # (?m @ dropWhile ?P (tl ?resto))"
    using r by (metis takeWhile_dropWhile_id)
  finally have "s = (?loc @ ''@'' @ d @ ''.'' @ t) @ dropWhile ?P (tl ?resto)"
    using m(1) by simp
  moreover have "local_domain_tld (?loc @ ''@'' @ d @ ''.'' @ t)"
    unfolding local_domain_tld_def using loc m no by (intro exI [of _ ?loc] exI [of _ d] exI [of _ t]) auto
  ultimately show "\<exists>p r. s = p @ r \<and> local_domain_tld p" by blast
next
  assume "\<exists>p r. s = p @ r \<and> local_domain_tld p"
  then obtain loc dom tld r where s: "s = (loc @ ''@'' @ dom @ ''.'' @ tld) @ r"
    and ne: "loc \<noteq> []" "dom \<noteq> []" "tld \<noteq> []"
    and no: "CHR ''@'' \<notin> set loc" "CHR ''@'' \<notin> set dom" "CHR ''@'' \<notin> set tld"
    by (auto simp: local_domain_tld_def)
  let ?P = "\<lambda>c. c \<noteq> CHR ''@''"
  have s': "s = loc @ CHR ''@'' # (dom @ CHR ''.'' # tld @ r)"
    using s by simp
  have 1: "takeWhile ?P s = loc"
    unfolding s' using no(1) by (simp add: takeWhile_no_at)
  have 2: "dropWhile ?P s = CHR ''@'' # (dom @ CHR ''.'' # tld @ r)"
    unfolding s' using no(1) by (simp add: dropWhile_no_at)
  have "takeWhile ?P (dom @ (CHR ''.'' # tld) @ r) = dom @ takeWhile ?P ((CHR ''.'' # tld) @ r)"
    using no(2) by (rule takeWhile_no_at)
  also have "takeWhile ?P ((CHR ''.'' # tld) @ r) = (CHR ''.'' # tld) @ takeWhile ?P r"
    using no(3) by (intro takeWhile_no_at) simp
  finally have 3: "takeWhile ?P (dom @ CHR ''.'' # tld @ r) = dom @ CHR ''.'' # (tld @ takeWhile ?P r)"
    by simp
  have "CHR ''.'' \<in> set (tl (butlast (dom @ CHR ''.'' # (tld @ takeWhile ?P r))))"
    using ne by (intro dot_inside) simp_all
  then show "EMAIL_RE_match s"
    using ne(1) by (simp add: EMAIL_RE_match_def Let_def 1 2 3)
qed

lemma local_domain_tld_accepted: "local_domain_tld s \<Longrightarrow> EMAIL_RE_match s"
  using EMAIL_RE_match_prefix [of s] by (metis append_Nil2)

lemma no_at_filter: "CHR ''@'' \<notin> set xs \<Longrightarrow> filter (\<lambda>c. c = CHR ''@'') xs = []"
  by (induction xs) auto

lemma local_domain_tld_one_at:
  "local_domain_tld s \<Longrightarrow> length (filter (\<lambda>c. c = CHR ''@'') s) = 1"
  by (auto simp: local_domain_tld_def no_at_filter)

lemma form_registrar_error_iff:
  "(\<exists>err. fst (form_registrar ahora e n k st) = Inl err) \<longleftrightarrow> \<not> EMAIL_RE_match (strip e)"
  by (auto simp: form_registrar_def split: prod.splits dest: EMAIL_RE_match_nonempty)

text \<open>
  Claim C8. Every accepted string should have the shape \<open>local@domain.tld\<close>. The pattern
  excludes \<open>@\<close> from each of its three parts, but \<open>match\<close> does not anchor it at the end
  of the input: \<open>ana@club.com@otro\<close> has not the shape, and the registration form accepts it
  and stores a profile under it.
\<close>

theorem second_at_accepted:
  "\<not> local_domain_tld (strip ''ana@club.com@otro'') \<and>
   form_registrar 0 ''ana@club.com@otro'' [] [] estado_inicial =
     (Inr \<lparr>email = Str ''ana@club.com@otro'', nombre = Str [], nickname = Str [],
            fecha_registro = Fecha 0\<rparr>,
      estado_inicial\<lparr>
        usuarios_csv := Csv [\<lparr>email = Str ''ana@club.com@otro'', nombre = Str [],
                               nickname = Str [], fecha_registro = Fecha 0\<rparr>],
        session_user := Some \<lparr>email = Str ''ana@club.com@otro'', nombre = Str [],
                               nickname = Str [], fecha_registro = Fecha 0\<rparr>\<rparr>)"
proof -
  have s: "strip ''ana@club.com@otro'' = ''ana@club.com@otro''"
    by code_simp
  have "length (filter (\<lambda>c. c = CHR ''@'') ''ana@club.com@otro'') = 2"
    by simp
  then have "\<not> local_domain_tld ''ana@club.com@otro''"
    using local_domain_tld_one_at by fastforce
  moreover have "form_registrar 0 ''ana@club.com@otro'' [] [] estado_inicial =
     (Inr \<lparr>email = Str ''ana@club.com@otro'', nombre = Str [], nickname = Str [],
            fecha_registro = Fecha 0\<rparr>,
      estado_inicial\<lparr>
        usuarios_csv := Csv [\<lparr>email = Str ''ana@club.com@otro'', nombre = Str [],
                               nickname = Str [], fecha_registro = Fecha 0\<rparr>],
        session_user := Some \<lparr>email = Str ''ana@club.com@otro'', nombre = Str [],
                               nickname = Str [], fecha_registro = Fecha 0\<rparr>\<rparr>)"
    by code_simp
  ultimately show ?thesis
    by (simp add: s)
qed

section \<open>An unreadable users file\<close>

text \<open>
  Claim C10. When \<open>usuarios.csv\<close> cannot be read (or is not there), \<open>load_users\<close> returns
  the empty table and no error: \<open>login_user\<close> finds nobody, whatever the email, and changes
  nothing; \<open>login_or_register\<close> takes the new-user branch and writes a file that holds the
  new profile and nothing else.
\<close>

theorem unreadable_users_file:
  assumes "usuarios_csv st = Unreadable \<or> usuarios_csv st = Absent"
  shows "load_users st = [] \<and>
         login_user e st = (None, st) \<and>
         fst (login_or_register ahora e n k st) =
           \<lparr>email = Str (lower (strip e)), nombre = Str (strip n), nickname = Str (strip k),
            fecha_registro = Fecha (strftime ahora)\<rparr> \<and>
         usuarios_csv (snd (login_or_register ahora e n k st)) =
           Csv [fst (login_or_register ahora e n k st)]"
proof -
  from assms have empty: "load_users st = []"
    by (auto simp: load_users_def)
  then show ?thesis
    by (simp add: login_user_def login_or_register_def save_users_def Let_def)
qed

theorem unreadable_users_file_witness:
  "load_users (estado_inicial\<lparr>usuarios_csv := Unreadable\<rparr>) = [] \<and>
   login_user ''ana@club.com'' (estado_inicial\<lparr>usuarios_csv := Unreadable\<rparr>) =
     (None, estado_inicial\<lparr>usuarios_csv := Unreadable\<rparr>) \<and>
   usuarios_csv (snd (login_or_register 0 ''ana@club.com'' ''Ana'' []
       (estado_inicial\<lparr>usuarios_csv := Unreadable\<rparr>))) =
     Csv [\<lparr>email = Str ''ana@club.com'', nombre = Str ''Ana'', nickname = Str [],
            fecha_registro = Fecha 0\<rparr>]"
proof -
  have h: "usuarios_csv (estado_inicial\<lparr>usuarios_csv := Unreadable\<rparr>) = Unreadable \<or>
           usuarios_csv (estado_inicial\<lparr>usuarios_csv := Unreadable\<rparr>) = Absent"
    by simp
  have n: "lower (strip ''ana@club.com'') = ''ana@club.com''" "strip ''Ana'' = ''Ana''"
      "strip [] = []"
    by code_simp+
  show ?thesis
    using unreadable_users_file [OF h, of "''ana@club.com''" 0 "''Ana''" "[]"]
    by (simp add: n strftime_def)
qed

end
